theory Spec2Isabelle
  imports Main
begin

section \<open>Finding construction and override actions (common_actions.py)\<close>

text \<open>
  A shallow embedding of \<^verbatim>\<open>playbooks/robusta_playbooks/common_actions.py\<close>: the label
  extractor \<^verbatim>\<open>_get_templating_labels\<close> and the two actions \<^verbatim>\<open>create_finding\<close> and
  \<^verbatim>\<open>customise_finding\<close>. The two standard-library pieces the file is built on,
  \<^verbatim>\<open>collections.defaultdict\<close> and \<^verbatim>\<open>string.Template.safe_substitute\<close>, are embedded
  after CPython's \<^verbatim>\<open>Lib/string.py\<close>. Python strings are \<open>string\<close>; an
  \<^verbatim>\<open>Optional[str]\<close> is a \<open>string option\<close>.
\<close>

subsection \<open>Python values\<close>

text \<open>
  The conditional expressions of the file test an \<^verbatim>\<open>Optional[str]\<close> for truth
  (\<^verbatim>\<open>x if x else y\<close>): \<^verbatim>\<open>None\<close> and the empty string are both false.
\<close>

definition truthy :: "string option \<Rightarrow> bool" where
  "truthy x = (case x of None \<Rightarrow> False | Some s \<Rightarrow> s \<noteq> [])"

datatype py_error = KeyError

text \<open>
  A \<^verbatim>\<open>dict\<close> from strings to strings, with the \<^verbatim>\<open>default_factory\<close> of a
  \<^verbatim>\<open>defaultdict\<close>. The only factory of the file is \<^verbatim>\<open>lambda: "<missing>"\<close>, a constant
  function, so a factory is the string it returns; a plain \<^verbatim>\<open>dict\<close> has none.
\<close>

record pydict =
  items :: "string \<rightharpoonup> string"
  default_factory :: "string option"

text \<open>\<^verbatim>\<open>key in d\<close>: only stored keys count, also for a \<^verbatim>\<open>defaultdict\<close>.\<close>

definition contains :: "pydict \<Rightarrow> string \<Rightarrow> bool" where
  "contains d k = (items d k \<noteq> None)"

text \<open>
  \<^verbatim>\<open>d[key]\<close>. A stored key gives its value. For an absent key a plain dict raises
  \<^verbatim>\<open>KeyError\<close>; a \<^verbatim>\<open>defaultdict\<close> calls \<^verbatim>\<open>__missing__\<close>, which stores the factory's
  value under the key and returns it, so the lookup also returns the changed dict.
\<close>

definition getitem :: "pydict \<Rightarrow> string \<Rightarrow> (py_error + string) \<times> pydict" where
  "getitem d k =
     (case items d k of
        Some v \<Rightarrow> (Inr v, d)
      | None \<Rightarrow>
          (case default_factory d of
             None \<Rightarrow> (Inl KeyError, d)
           | Some v \<Rightarrow> (Inr v, d\<lparr>items := (items d)(k \<mapsto> v)\<rparr>)))"

text \<open>\<^verbatim>\<open>d.update({k1: v1, ...})\<close>: the pairs are stored in order, a later one wins.\<close>

definition update :: "pydict \<Rightarrow> (string \<times> string) list \<Rightarrow> pydict" where
  "update d kvs = d\<lparr>items := fold (\<lambda>(k, v) m. m(k \<mapsto> v)) kvs (items d)\<rparr>"

subsection \<open>string.Template.safe_substitute\<close>

text \<open>
  The pattern of \<^verbatim>\<open>string.Template\<close> is, with the delimiter \<^verbatim>\<open>$\<close> and the identifier
  pattern \<^verbatim>\<open>(?a:[_a-z][_a-z0-9]*)\<close> under \<^verbatim>\<open>re.IGNORECASE\<close>:
  \<^verbatim>\<open>\$(?: (?P<escaped>\$) | (?P<named>id) | {(?P<braced>id)} | (?P<invalid>) )\<close>.
  The identifier is ASCII only: a first character that is a letter or an underscore, then
  letters, digits and underscores, as many as there are (the pattern is greedy).
\<close>

definition is_id_start :: "char \<Rightarrow> bool" where
  "is_id_start c = (c \<in> set ''_abcdefghijklmnopqrstuvwxyzABCDEFGHIJKLMNOPQRSTUVWXYZ'')"

definition is_id_char :: "char \<Rightarrow> bool" where
  "is_id_char c = (is_id_start c \<or> c \<in> set ''0123456789'')"

text \<open>The identifier pattern at the head of a string: the identifier and what follows it.\<close>

definition match_idpattern :: "string \<Rightarrow> (string \<times> string) option" where
  "match_idpattern cs =
     (case cs of
        [] \<Rightarrow> None
      | c # cs' \<Rightarrow>
          if is_id_start c
          then Some (c # takeWhile is_id_char cs', dropWhile is_id_char cs')
          else None)"

text \<open>
  What the alternatives of the pattern match after a delimiter, tried in the pattern's
  order, each with the text left after the match. The braced alternative needs the
  closing brace right after the longest identifier; \<^verbatim>\<open>invalid\<close> matches the empty
  string, so the match is then the delimiter alone.
\<close>

datatype match = Escaped string | Named string string | Braced string string | Invalid

definition match_after_delimiter :: "string \<Rightarrow> match" where
  "match_after_delimiter cs =
     (case cs of
        [] \<Rightarrow> Invalid
      | c # rest \<Rightarrow>
          if c = CHR ''$'' then Escaped rest
          else
            (case match_idpattern cs of
               Some (named, rest') \<Rightarrow> Named named rest'
             | None \<Rightarrow>
                 if c = CHR ''{'' then
                   (case match_idpattern rest of
                      Some (braced, after) \<Rightarrow>
                        (case after of
                           [] \<Rightarrow> Invalid
                         | b # rest' \<Rightarrow> if b = CHR ''}'' then Braced braced rest' else Invalid)
                    | None \<Rightarrow> Invalid)
                 else Invalid))"

text \<open>
  The helper \<^verbatim>\<open>convert\<close> of \<^verbatim>\<open>safe_substitute\<close> for a named or braced match:
  \<^verbatim>\<open>try: return str(mapping[named])  except KeyError: return mo.group()\<close>,
  where \<open>whole\<close> is the matched text \<^verbatim>\<open>mo.group()\<close>. The values are strings, so
  \<^verbatim>\<open>str\<close> returns them as they are.
\<close>

definition convert :: "pydict \<Rightarrow> string \<Rightarrow> string \<Rightarrow> string \<times> pydict" where
  "convert mapping named whole =
     (case getitem mapping named of
        (Inr v, mapping') \<Rightarrow> (v, mapping')
      | (Inl KeyError, mapping') \<Rightarrow> (whole, mapping'))"

text \<open>
  \<^verbatim>\<open>self.pattern.sub(convert, self.template)\<close>: the template is read from the left,
  text outside a match is copied, each match is replaced by what \<^verbatim>\<open>convert\<close> returns
  for it, and reading goes on after the match. The lookups happen in that order, so the
  mapping is passed along.
\<close>

function pattern_sub :: "pydict \<Rightarrow> string \<Rightarrow> string \<times> pydict" where
  "pattern_sub mapping [] = ([], mapping)"
| "pattern_sub mapping (c # cs) =
     (if c \<noteq> CHR ''$'' then
        (case pattern_sub mapping cs of (out, m') \<Rightarrow> (c # out, m'))
      else
        (case match_after_delimiter cs of
           Escaped rest \<Rightarrow>
             (case pattern_sub mapping rest of (out, m') \<Rightarrow> (CHR ''$'' # out, m'))
         | Named named rest \<Rightarrow>
             (case convert mapping named (CHR ''$'' # named) of
                (s, m1) \<Rightarrow> (case pattern_sub m1 rest of (out, m2) \<Rightarrow> (s @ out, m2)))
         | Braced braced rest \<Rightarrow>
             (case convert mapping braced (''${'' @ braced @ ''}'') of
                (s, m1) \<Rightarrow> (case pattern_sub m1 rest of (out, m2) \<Rightarrow> (s @ out, m2)))
         | Invalid \<Rightarrow>
             (case pattern_sub mapping cs of (out, m') \<Rightarrow> (CHR ''$'' # out, m'))))"
  by pat_completeness auto
termination
proof (relation "measure (\<lambda>(m, t). length t)", goal_cases)
  case 1
  show ?case by simp
next
  case (2 mapping c cs)
  then show ?case by simp
next
  case (3 mapping c cs rest)
  then show ?case
    by (auto simp: match_after_delimiter_def split: list.splits if_splits option.splits)
next
  case (4 mapping c cs named rest s m1)
  have "length (dropWhile is_id_char (tl cs)) \<le> length (tl cs)"
    by (rule length_dropWhile_le)
  with 4 show ?case
    by (auto simp: match_after_delimiter_def match_idpattern_def
             split: list.splits if_splits option.splits)
next
  case (5 mapping c cs braced rest s m1)
  have "length (dropWhile is_id_char (tl (tl cs))) \<le> length (tl (tl cs))"
    by (rule length_dropWhile_le)
  with 5 show ?case
    by (auto simp: match_after_delimiter_def match_idpattern_def
             split: list.splits if_splits option.splits)
next
  case (6 mapping c cs)
  then show ?case by simp
qed

text \<open>\<^verbatim>\<open>Template(template).safe_substitute(mapping)\<close>: the text, and the mapping after it.\<close>

definition safe_substitute :: "string \<Rightarrow> pydict \<Rightarrow> string \<times> pydict" where
  "safe_substitute template mapping = pattern_sub mapping template"

subsection \<open>The host's data: subject, severity, Finding and event\<close>

text \<open>
  Modelled from the spec: \<^verbatim>\<open>FindingSubjectType\<close> is declared in \<^verbatim>\<open>robusta.api\<close>, not in
  this file. The spec gives it as an enumerated kind (Pod, Node, Job, ...) of which
  every member has a display name, read by \<^verbatim>\<open>.value\<close>; the members are not listed, so a
  member is represented by its display name.
\<close>

datatype FindingSubjectType = SubjectType (type_value: string)

text \<open>
  Modelled from the spec: the subject class of \<^verbatim>\<open>robusta.api\<close>, with the attributes of
  the spec's data model: a required name, the kind, an optional namespace and an
  optional node.
\<close>

record FindingSubject =
  name :: string
  subject_type :: FindingSubjectType
  namespace :: "string option"
  node :: "string option"

text \<open>
  Modelled from the spec: \<^verbatim>\<open>FindingSeverity\<close> is declared in \<^verbatim>\<open>robusta.api\<close>. The spec
  gives the enumeration DEBUG, INFO, LOW, MEDIUM, HIGH.
\<close>

datatype FindingSeverity = DEBUG | INFO | LOW | MEDIUM | HIGH

text \<open>
  Modelled from the spec: the one error the actions raise, for a severity name that is
  not recognized.
\<close>

datatype error = InvalidSeverity

text \<open>
  Modelled from the spec: the names of the members of \<^verbatim>\<open>FindingSeverity\<close>, case-sensitive.
\<close>

definition severity_names :: "(string \<times> FindingSeverity) list" where
  "severity_names =
     [(''DEBUG'', DEBUG), (''INFO'', INFO), (''LOW'', LOW), (''MEDIUM'', MEDIUM), (''HIGH'', HIGH)]"

text \<open>
  Modelled from the spec: \<^verbatim>\<open>FindingSeverity[name]\<close>, the lookup of a member by its name
  that \<^verbatim>\<open>customise_finding\<close> uses; it fails with \<open>InvalidSeverity\<close> for a name that is
  not one of the five.
\<close>

definition FindingSeverity_getitem :: "string \<Rightarrow> error + FindingSeverity" where
  "FindingSeverity_getitem s =
     (case map_of severity_names s of None \<Rightarrow> Inl InvalidSeverity | Some v \<Rightarrow> Inr v)"

text \<open>
  Modelled from the spec: \<^verbatim>\<open>FindingSeverity.from_severity\<close>, the name-based parser that
  \<^verbatim>\<open>create_finding\<close> uses; it fails with \<open>InvalidSeverity\<close> if the name is not one of the
  five recognized values, which \<^verbatim>\<open>None\<close> is not.
\<close>

definition from_severity :: "string option \<Rightarrow> error + FindingSeverity" where
  "from_severity s =
     (case s of
        None \<Rightarrow> Inl InvalidSeverity
      | Some n \<Rightarrow> (case map_of severity_names n of None \<Rightarrow> Inl InvalidSeverity | Some v \<Rightarrow> Inr v))"

text \<open>
  Modelled from the spec: the source of an event identifies the integration or observer
  that produced it; nothing else is said of it.
\<close>

datatype FindingSource = FindingSource string

text \<open>
  Modelled from the spec: the \<^verbatim>\<open>Finding\<close> class of \<^verbatim>\<open>robusta.api\<close>, with the six
  attributes of the spec's data model, named as the keyword arguments of the
  constructor call in \<^verbatim>\<open>create_finding\<close>.
\<close>

record Finding =
  title :: string
  description :: "string option"
  aggregation_key :: string
  severity :: FindingSeverity
  subject :: FindingSubject
  source :: FindingSource

text \<open>
  Modelled from the spec: \<^verbatim>\<open>ExecutionBaseEvent\<close> of \<^verbatim>\<open>robusta.api\<close>. An event carries its
  subject and its source (what \<^verbatim>\<open>get_subject()\<close> and \<^verbatim>\<open>get_source()\<close> return) and
  accumulates zero or more Findings over its lifetime.
\<close>

record ExecutionBaseEvent =
  get_subject :: FindingSubject
  get_source :: FindingSource
  findings :: "Finding list"

text \<open>
  Modelled from the spec: \<^verbatim>\<open>event.add_finding(finding)\<close> appends a Finding to the event's
  accumulated result set.
\<close>

definition add_finding :: "ExecutionBaseEvent \<Rightarrow> Finding \<Rightarrow> ExecutionBaseEvent" where
  "add_finding event finding = event\<lparr>findings := findings event @ [finding]\<rparr>"

text \<open>
  Modelled from the spec: what \<^verbatim>\<open>override_finding_attributes\<close> does to one Finding. Only
  the non-absent fields apply; an absent field leaves the attribute of the Finding at its
  prior value. The other attributes are not touched.
\<close>

definition override_attributes ::
  "string option \<Rightarrow> string option \<Rightarrow> FindingSeverity option \<Rightarrow> Finding \<Rightarrow> Finding" where
  "override_attributes t d s finding =
     finding\<lparr>title := (case t of None \<Rightarrow> title finding | Some v \<Rightarrow> v),
             description := (case d of None \<Rightarrow> description finding | Some v \<Rightarrow> Some v),
             severity := (case s of None \<Rightarrow> severity finding | Some v \<Rightarrow> v)\<rparr>"

text \<open>
  Modelled from the spec: \<^verbatim>\<open>event.override_finding_attributes(title, description, severity)\<close>
  works on whatever Findings the event currently holds. What the host does when the event
  holds no Finding is left open by the spec: here the call then changes nothing, and what
  the override does to a Finding is only stated for events that hold one.
\<close>

definition override_finding_attributes ::
  "ExecutionBaseEvent \<Rightarrow> string option \<Rightarrow> string option \<Rightarrow> FindingSeverity option
     \<Rightarrow> ExecutionBaseEvent" where
  "override_finding_attributes event t d s =
     event\<lparr>findings := map (override_attributes t d s) (findings event)\<rparr>"

subsection \<open>The label extractor\<close>

text \<open>
  \<^verbatim>\<open>_get_templating_labels\<close>: a \<^verbatim>\<open>defaultdict(lambda: "<missing>")\<close>, updated with the
  four labels of the event's subject.
\<close>

definition get_templating_labels :: "ExecutionBaseEvent \<Rightarrow> pydict" where
  "get_templating_labels event =
     (let subject = get_subject event;
          labels = \<lparr>items = Map.empty, default_factory = Some ''<missing>''\<rparr>
      in update labels
           [(''name'', name subject),
            (''kind'', type_value (subject_type subject)),
            (''namespace'',
               if truthy (namespace subject) then the (namespace subject) else ''<missing>''),
            (''node'',
               if truthy (node subject) then the (node subject) else ''<missing>'')])"

subsection \<open>customise_finding\<close>

text \<open>The parameters \<^verbatim>\<open>FindingOverrides\<close>: three optional strings, each \<^verbatim>\<open>None\<close> by default.\<close>

record FindingOverrides =
  overrides_title :: "string option"
  overrides_description :: "string option"
  overrides_severity :: "string option"

text \<open>
  An action returns nothing and changes the event it is given, or raises: the result is
  the outcome together with the event as the call leaves it. The severity is parsed
  first, so a failure there leaves before anything else happens.
\<close>

definition customise_finding ::
  "ExecutionBaseEvent \<Rightarrow> FindingOverrides \<Rightarrow> (error + unit) \<times> ExecutionBaseEvent" where
  "customise_finding event params =
     (case (if truthy (overrides_severity params)
            then map_sum id Some (FindingSeverity_getitem (the (overrides_severity params)))
            else Inr None) of
        Inl e \<Rightarrow> (Inl e, event)
      | Inr severity' \<Rightarrow>
          (let labels = get_templating_labels event;
               (title', labels1) =
                 (if truthy (overrides_title params)
                  then (case safe_substitute (the (overrides_title params)) labels of
                          (s, l) \<Rightarrow> (Some s, l))
                  else (None, labels));
               (description', labels2) =
                 (if truthy (overrides_description params)
                  then (case safe_substitute (the (overrides_description params)) labels1 of
                          (s, l) \<Rightarrow> (Some s, l))
                  else (None, labels1))
           in (Inr (), override_finding_attributes event title' description' severity')))"

subsection \<open>create_finding\<close>

text \<open>
  The parameters \<^verbatim>\<open>FindingFields\<close>: \<^verbatim>\<open>title\<close> and \<^verbatim>\<open>aggregation_key\<close> are required,
  \<^verbatim>\<open>description\<close> is \<^verbatim>\<open>None\<close> by default and \<^verbatim>\<open>severity\<close> is \<^verbatim>\<open>"HIGH"\<close> by default.
\<close>

record FindingFields =
  fields_title :: string
  fields_aggregation_key :: string
  fields_description :: "string option"
  fields_severity :: "string option"

text \<open>
  Building the parameter record: an optional field that the caller leaves out
  (\<open>None\<close> here) takes the default of the class; one that is given (\<open>Some v\<close>) takes
  the value given, which may itself be \<^verbatim>\<open>None\<close>.
\<close>

definition new_FindingFields ::
  "string \<Rightarrow> string \<Rightarrow> string option option \<Rightarrow> string option option \<Rightarrow> FindingFields" where
  "new_FindingFields t k d s =
     \<lparr>fields_title = t,
      fields_aggregation_key = k,
      fields_description = (case d of None \<Rightarrow> None | Some v \<Rightarrow> v),
      fields_severity = (case s of None \<Rightarrow> Some ''HIGH'' | Some v \<Rightarrow> v)\<rparr>"

text \<open>
  The arguments of the \<^verbatim>\<open>Finding\<close> constructor are evaluated in the order written:
  the title, the description, the aggregation key, then the severity, whose parser may
  raise. \<^verbatim>\<open>add_finding\<close> is called only once the Finding is built.
\<close>

definition create_finding ::
  "ExecutionBaseEvent \<Rightarrow> FindingFields \<Rightarrow> (error + unit) \<times> ExecutionBaseEvent" where
  "create_finding event params =
     (let labels = get_templating_labels event;
          (title', labels1) = safe_substitute (fields_title params) labels;
          (description', labels2) =
            (if truthy (fields_description params)
             then (case safe_substitute (the (fields_description params)) labels1 of
                     (s, l) \<Rightarrow> (Some s, l))
             else (None, labels1))
      in case from_severity (fields_severity params) of
           Inl e \<Rightarrow> (Inl e, event)
         | Inr severity' \<Rightarrow>
             (Inr (),
              add_finding event
                \<lparr>title = title',
                 description = description',
                 aggregation_key = fields_aggregation_key params,
                 severity = severity',
                 subject = get_subject event,
                 source = get_source event\<rparr>))"

subsection \<open>Notions used to state the properties\<close>

text \<open>
  What a lookup of key \<open>k\<close> returns: the stored value, else the default, else nothing
  (the lookup raises \<^verbatim>\<open>KeyError\<close>).
\<close>

definition resolves :: "pydict \<Rightarrow> string \<Rightarrow> string option" where
  "resolves d k = (case items d k of Some v \<Rightarrow> Some v | None \<Rightarrow> default_factory d)"

text \<open>A placeholder name: a string that the identifier pattern matches as a whole.\<close>

definition is_identifier :: "string \<Rightarrow> bool" where
  "is_identifier s = (match_idpattern s = Some (s, []))"

text \<open>
  Text after which an identifier cannot go on: it is empty or starts with a character
  that is not an identifier character.
\<close>

definition stops_identifier :: "string \<Rightarrow> bool" where
  "stops_identifier s = (case s of [] \<Rightarrow> True | c # _ \<Rightarrow> \<not> is_id_char c)"

text \<open>Text that ends in a delimiter, which would read on into what follows it.\<close>

definition ends_with_delimiter :: "string \<Rightarrow> bool" where
  "ends_with_delimiter s = (s \<noteq> [] \<and> last s = CHR ''$'')"

text \<open>The two ways of writing the placeholder of a name in a template.\<close>

definition named_placeholder :: "string \<Rightarrow> string" where
  "named_placeholder k = CHR ''$'' # k"

definition braced_placeholder :: "string \<Rightarrow> string" where
  "braced_placeholder k = ''${'' @ k @ ''}''"

text \<open>What a template renders to against the labels of an event.\<close>

definition render :: "ExecutionBaseEvent \<Rightarrow> string \<Rightarrow> string" where
  "render event template = fst (safe_substitute template (get_templating_labels event))"

text \<open>An event to evaluate the actions on: a pod in a namespace, with no node.\<close>

definition pod_event :: ExecutionBaseEvent where
  "pod_event =
     \<lparr>get_subject =
        \<lparr>name = ''api-1'', subject_type = SubjectType ''Pod'',
         namespace = Some ''prod'', node = None\<rparr>,
      get_source = FindingSource ''prometheus'',
      findings = []\<rparr>"

text \<open>
  Two more events: a node with no namespace, and a subject whose namespace and node are
  empty strings.
\<close>

definition node_event :: ExecutionBaseEvent where
  "node_event =
     \<lparr>get_subject =
        \<lparr>name = ''worker-3'', subject_type = SubjectType ''Node'',
         namespace = None, node = Some ''worker-3''\<rparr>,
      get_source = FindingSource ''kubernetes_api_server'',
      findings = []\<rparr>"

definition blank_event :: ExecutionBaseEvent where
  "blank_event =
     \<lparr>get_subject =
        \<lparr>name = ''worker-3'', subject_type = SubjectType ''Node'',
         namespace = Some '''', node = Some ''''\<rparr>,
      get_source = FindingSource ''kubernetes_api_server'',
      findings = []\<rparr>"

section \<open>Lemmas\<close>

subsection \<open>Lookups do not change what later lookups return\<close>

lemma getitem_fst:
  "fst (getitem d k) = (case resolves d k of None \<Rightarrow> Inl KeyError | Some v \<Rightarrow> Inr v)"
  by (simp add: getitem_def resolves_def split: option.splits)

lemma getitem_resolves: "resolves (snd (getitem d k)) = resolves d"
  by (rule ext) (simp add: getitem_def resolves_def split: option.splits)

lemma convert_fst:
  "fst (convert d k w) = (case resolves d k of None \<Rightarrow> w | Some v \<Rightarrow> v)"
  by (simp add: convert_def getitem_def resolves_def split: option.splits)

lemma convert_resolves: "resolves (snd (convert d k w)) = resolves d"
  by (rule ext) (simp add: convert_def getitem_def resolves_def split: option.splits)

lemma pattern_sub_resolves: "resolves (snd (pattern_sub d t)) = resolves d"
proof (induction d t rule: pattern_sub.induct)
  case (1 mapping)
  show ?case by simp
next
  case (2 mapping c cs)
  show ?case
  proof (cases "c = CHR ''$''")
    case False
    with 2(1) show ?thesis by (simp add: case_prod_beta)
  next
    case True
    show ?thesis
    proof (cases "match_after_delimiter cs")
      case (Escaped rest)
      with True 2(2) show ?thesis by (simp add: case_prod_beta)
    next
      case (Named named rest)
      obtain s m1 where c: "convert mapping named (CHR ''$'' # named) = (s, m1)"
        by (cases "convert mapping named (CHR ''$'' # named)")
      have "resolves m1 = resolves mapping"
        using convert_resolves [of mapping named "CHR ''$'' # named"] c by simp
      moreover have "resolves (snd (pattern_sub m1 rest)) = resolves m1"
        using 2(3) True Named c by simp
      ultimately show ?thesis using True Named c by (simp add: case_prod_beta)
    next
      case (Braced braced rest)
      obtain s m1 where c: "convert mapping braced (''${'' @ braced @ ''}'') = (s, m1)"
        by (cases "convert mapping braced (''${'' @ braced @ ''}'')")
      have "resolves m1 = resolves mapping"
        using convert_resolves [of mapping braced "''${'' @ braced @ ''}''"] c by simp
      moreover have "resolves (snd (pattern_sub m1 rest)) = resolves m1"
        using 2(4) True Braced c by simp
      ultimately show ?thesis using True Braced c by (simp add: case_prod_beta)
    next
      case Invalid
      with True 2(5) show ?thesis by (simp add: case_prod_beta)
    qed
  qed
qed

lemma pattern_sub_cong:
  "resolves d1 = resolves d2 \<Longrightarrow> fst (pattern_sub d1 t) = fst (pattern_sub d2 t)"
proof (induction d1 t arbitrary: d2 rule: pattern_sub.induct)
  case (1 mapping)
  show ?case by simp
next
  case (2 mapping c cs)
  show ?case
  proof (cases "c = CHR ''$''")
    case False
    with 2(1) [OF _ 2(6)] show ?thesis by (simp add: case_prod_beta)
  next
    case True
    show ?thesis
    proof (cases "match_after_delimiter cs")
      case (Escaped rest)
      with True 2(2) [OF _ _ 2(6)] show ?thesis by (simp add: case_prod_beta)
    next
      case (Named named rest)
      obtain s m1 where c: "convert mapping named (CHR ''$'' # named) = (s, m1)"
        by (cases "convert mapping named (CHR ''$'' # named)")
      obtain s' m1' where c': "convert d2 named (CHR ''$'' # named) = (s', m1')"
        by (cases "convert d2 named (CHR ''$'' # named)")
      have "s = s'"
        using convert_fst [of mapping named "CHR ''$'' # named"]
              convert_fst [of d2 named "CHR ''$'' # named"] c c' 2(6) by simp
      moreover have "resolves m1 = resolves m1'"
        using convert_resolves [of mapping named "CHR ''$'' # named"]
              convert_resolves [of d2 named "CHR ''$'' # named"] c c' 2(6) by simp
      then have "fst (pattern_sub m1 rest) = fst (pattern_sub m1' rest)"
        using 2(3) True Named c by simp
      ultimately show ?thesis using True Named c c' by (simp add: case_prod_beta)
    next
      case (Braced braced rest)
      obtain s m1 where c: "convert mapping braced (''${'' @ braced @ ''}'') = (s, m1)"
        by (cases "convert mapping braced (''${'' @ braced @ ''}'')")
      obtain s' m1' where c': "convert d2 braced (''${'' @ braced @ ''}'') = (s', m1')"
        by (cases "convert d2 braced (''${'' @ braced @ ''}'')")
      have "s = s'"
        using convert_fst [of mapping braced "''${'' @ braced @ ''}''"]
              convert_fst [of d2 braced "''${'' @ braced @ ''}''"] c c' 2(6) by simp
      moreover have "resolves m1 = resolves m1'"
        using convert_resolves [of mapping braced "''${'' @ braced @ ''}''"]
              convert_resolves [of d2 braced "''${'' @ braced @ ''}''"] c c' 2(6) by simp
      then have "fst (pattern_sub m1 rest) = fst (pattern_sub m1' rest)"
        using 2(4) True Braced c by simp
      ultimately show ?thesis using True Braced c c' by (simp add: case_prod_beta)
    next
      case Invalid
      with True 2(5) [OF _ _ 2(6)] show ?thesis by (simp add: case_prod_beta)
    qed
  qed
qed

lemma pattern_sub_plain: "default_factory d = None \<Longrightarrow> snd (pattern_sub d t) = d"
proof (induction d t rule: pattern_sub.induct)
  case (1 mapping)
  show ?case by simp
next
  case (2 mapping c cs)
  have conv: "snd (convert mapping k w) = mapping" for k w
    using 2(6) by (simp add: convert_def getitem_def split: option.splits)
  show ?case
  proof (cases "c = CHR ''$''")
    case False
    with 2(1) 2(6) show ?thesis by (simp add: case_prod_beta)
  next
    case True
    show ?thesis
    proof (cases "match_after_delimiter cs")
      case (Escaped rest)
      with True 2(2) 2(6) show ?thesis by (simp add: case_prod_beta)
    next
      case (Named named rest)
      have "snd (pattern_sub mapping rest) = mapping"
        using 2(3) [OF _ Named, of "fst (convert mapping named (CHR ''$'' # named))" mapping]
          True 2(6) conv [of named "CHR ''$'' # named"]
        by (simp add: prod_eq_iff)
      then show ?thesis using True Named conv by (simp add: case_prod_beta)
    next
      case (Braced braced rest)
      have "snd (pattern_sub mapping rest) = mapping"
        using 2(4) [OF _ Braced, of "fst (convert mapping braced (''${'' @ braced @ ''}''))" mapping]
          True 2(6) conv [of braced "''${'' @ braced @ ''}''"]
        by (simp add: prod_eq_iff)
      then show ?thesis using True Braced conv by (simp add: case_prod_beta)
    next
      case Invalid
      with True 2(5) 2(6) show ?thesis by (simp add: case_prod_beta)
    qed
  qed
qed

subsection \<open>Reading a placeholder\<close>

lemma is_id_start_not_special:
  "is_id_start c \<Longrightarrow> c \<noteq> CHR ''$'' \<and> c \<noteq> CHR ''{'' \<and> c \<noteq> CHR ''}''"
  by (auto simp: is_id_start_def)

lemma not_id_special: "\<not> is_id_start CHR ''{''" "\<not> is_id_char CHR ''}''"
  by (simp_all add: is_id_start_def is_id_char_def)

lemma is_identifierE:
  assumes "is_identifier k"
  obtains c cs where "k = c # cs" "is_id_start c" "\<forall>x\<in>set cs. is_id_char x"
proof (cases k)
  case Nil
  with assms show ?thesis by (simp add: is_identifier_def match_idpattern_def)
next
  case (Cons c cs)
  with assms have "is_id_start c" "takeWhile is_id_char cs = cs"
    by (auto simp: is_identifier_def match_idpattern_def split: if_splits)
  then show ?thesis using Cons that by (simp add: takeWhile_eq_all_conv)
qed

lemma takeWhile_stops:
  "stops_identifier rest \<Longrightarrow> takeWhile is_id_char rest = []"
  "stops_identifier rest \<Longrightarrow> dropWhile is_id_char rest = rest"
  by (cases rest; simp add: stops_identifier_def)+

lemma match_idpattern_identifier:
  assumes "is_identifier k" "stops_identifier rest"
  shows "match_idpattern (k @ rest) = Some (k, rest)"
proof -
  from assms(1) obtain c cs where k: "k = c # cs" "is_id_start c" "\<forall>x\<in>set cs. is_id_char x"
    by (rule is_identifierE)
  then show ?thesis
    using takeWhile_stops [OF assms(2)]
    by (simp add: match_idpattern_def takeWhile_append2 dropWhile_append2)
qed

lemma match_named:
  assumes "is_identifier k" "stops_identifier rest"
  shows "match_after_delimiter (k @ rest) = Named k rest"
proof -
  from assms(1) obtain c cs where k: "k = c # cs" "is_id_start c"
    by (rule is_identifierE)
  then have "c \<noteq> CHR ''$''" using is_id_start_not_special by blast
  with k match_idpattern_identifier [OF assms] show ?thesis
    by (simp add: match_after_delimiter_def)
qed

lemma match_braced:
  assumes "is_identifier k"
  shows "match_after_delimiter (CHR ''{'' # k @ CHR ''}'' # rest) = Braced k rest"
proof -
  have "stops_identifier (CHR ''}'' # rest)"
    by (simp add: stops_identifier_def not_id_special)
  from match_idpattern_identifier [OF assms this] show ?thesis
    by (simp add: match_after_delimiter_def match_idpattern_def not_id_special)
qed

lemma pattern_sub_literal:
  "CHR ''$'' \<notin> set lit \<Longrightarrow>
   pattern_sub m (lit @ t) = (lit @ fst (pattern_sub m t), snd (pattern_sub m t))"
  by (induction lit) (auto simp: case_prod_beta)

lemma pattern_sub_placeholder:
  assumes "is_identifier k" "stops_identifier post"
    and "ph = named_placeholder k \<or> ph = braced_placeholder k"
  shows "fst (pattern_sub m (ph @ post)) =
           (case resolves m k of None \<Rightarrow> ph | Some v \<Rightarrow> v) @ fst (pattern_sub m post)"
proof -
  have same: "fst (pattern_sub (snd (convert m k w)) post) = fst (pattern_sub m post)" for w
    by (rule pattern_sub_cong) (rule convert_resolves)
  from assms(3) show ?thesis
  proof
    assume ph: "ph = named_placeholder k"
    show ?thesis
      unfolding ph named_placeholder_def
      using match_named [OF assms(1,2)] same [of "CHR ''$'' # k"] convert_fst [of m k "CHR ''$'' # k"]
      by (simp add: case_prod_beta)
  next
    assume ph: "ph = braced_placeholder k"
    show ?thesis
      unfolding ph braced_placeholder_def
      using match_braced [OF assms(1), of post] same [of "''${'' @ k @ ''}''"]
        convert_fst [of m k "''${'' @ k @ ''}''"]
      by (simp add: case_prod_beta)
  qed
qed

lemma render_placeholder:
  assumes "is_identifier k" "stops_identifier post"
    and "ph = named_placeholder k \<or> ph = braced_placeholder k"
    and "CHR ''$'' \<notin> set pre" "CHR ''$'' \<notin> set post"
  shows "fst (safe_substitute (pre @ ph @ post) m) =
           pre @ (case resolves m k of None \<Rightarrow> ph | Some v \<Rightarrow> v) @ post"
proof -
  have "pattern_sub m post = (post, m)"
    using pattern_sub_literal [OF assms(5), of m "[]"] by simp
  then show ?thesis
    using pattern_sub_literal [OF assms(4), of m "ph @ post"]
      pattern_sub_placeholder [OF assms(1,2,3), of m]
    by (simp add: safe_substitute_def)
qed

subsection \<open>The labels and the two actions\<close>

lemma labels_items:
  "items (get_templating_labels event) =
     [''name'' \<mapsto> name (get_subject event),
      ''kind'' \<mapsto> type_value (subject_type (get_subject event)),
      ''namespace'' \<mapsto>
         (if truthy (namespace (get_subject event)) then the (namespace (get_subject event))
          else ''<missing>''),
      ''node'' \<mapsto>
         (if truthy (node (get_subject event)) then the (node (get_subject event))
          else ''<missing>'')]"
  "default_factory (get_templating_labels event) = Some ''<missing>''"
  by (simp_all add: get_templating_labels_def update_def Let_def)

lemma labels_resolves_unknown:
  "k \<notin> {''name'', ''kind'', ''namespace'', ''node''} \<Longrightarrow>
   resolves (get_templating_labels event) k = Some ''<missing>''"
  by (simp add: resolves_def labels_items)

lemma render_after:
  "fst (safe_substitute t (snd (safe_substitute t' (get_templating_labels event)))) =
   render event t"
  unfolding render_def safe_substitute_def
  by (rule pattern_sub_cong) (rule pattern_sub_resolves)

lemma create_finding_render:
  "create_finding event params =
     (case from_severity (fields_severity params) of
        Inl e \<Rightarrow> (Inl e, event)
      | Inr sev \<Rightarrow>
          (Inr (),
           add_finding event
             \<lparr>title = render event (fields_title params),
              description =
                (if truthy (fields_description params)
                 then Some (render event (the (fields_description params))) else None),
              aggregation_key = fields_aggregation_key params,
              severity = sev,
              subject = get_subject event,
              source = get_source event\<rparr>))"
  by (simp add: create_finding_def Let_def case_prod_beta render_after split: sum.splits)
     (simp add: render_def)

lemma customise_finding_render:
  "customise_finding event params =
     (case (if truthy (overrides_severity params)
            then map_sum id Some (FindingSeverity_getitem (the (overrides_severity params)))
            else Inr None) of
        Inl e \<Rightarrow> (Inl e, event)
      | Inr sev \<Rightarrow>
          (Inr (),
           override_finding_attributes event
             (if truthy (overrides_title params)
              then Some (render event (the (overrides_title params))) else None)
             (if truthy (overrides_description params)
              then Some (render event (the (overrides_description params))) else None)
             sev))"
  by (simp add: customise_finding_def Let_def case_prod_beta render_after split: sum.splits)
     (simp add: render_def)

lemma create_finding_ok:
  assumes "from_severity (fields_severity p) = Inr sev"
  shows "\<exists>f. create_finding event p = (Inr (), add_finding event f) \<and>
             severity f = sev \<and> aggregation_key f = fields_aggregation_key p \<and>
             title f = render event (fields_title p) \<and>
             subject f = get_subject event \<and> source f = get_source event"
  unfolding create_finding_render using assms
  by (simp split del: if_split) (rule exI, rule conjI, rule refl, simp)

lemma parse_unknown:
  "s \<notin> {''DEBUG'', ''INFO'', ''LOW'', ''MEDIUM'', ''HIGH''} \<Longrightarrow>
   map_of severity_names s = None"
  by (simp add: severity_names_def)

lemma override_attributes_frame:
  "aggregation_key (override_attributes t d s f) = aggregation_key f"
  "subject (override_attributes t d s f) = subject f"
  "source (override_attributes t d s f) = source f"
  "title (override_attributes None d s f) = title f"
  "description (override_attributes t None s f) = description f"
  "severity (override_attributes t d None f) = severity f"
  "severity (override_attributes t d (Some v) f) = v"
  by (simp_all add: override_attributes_def)

subsection \<open>A placeholder inside a template\<close>

lemma while_before_stop:
  "\<not> P x \<Longrightarrow> takeWhile P (xs @ x # t) = takeWhile P xs"
  "\<not> P x \<Longrightarrow> dropWhile P (xs @ x # t) = dropWhile P xs @ x # t"
  by (induction xs) auto

lemma delimiter_not_id: "\<not> is_id_start CHR ''$''" "\<not> is_id_char CHR ''$''"
  by (simp_all add: is_id_start_def is_id_char_def)

lemma match_idpattern_append:
  "match_idpattern (cs @ CHR ''$'' # t) =
     (case match_idpattern cs of None \<Rightarrow> None | Some (n, r) \<Rightarrow> Some (n, r @ CHR ''$'' # t))"
  by (cases cs) (simp_all add: match_idpattern_def delimiter_not_id while_before_stop)

lemma match_after_delimiter_append:
  assumes "cs \<noteq> []"
  shows "match_after_delimiter (cs @ CHR ''$'' # t) =
     (case match_after_delimiter cs of
        Escaped r \<Rightarrow> Escaped (r @ CHR ''$'' # t)
      | Named n r \<Rightarrow> Named n (r @ CHR ''$'' # t)
      | Braced n r \<Rightarrow> Braced n (r @ CHR ''$'' # t)
      | Invalid \<Rightarrow> Invalid)"
proof -
  from assms obtain c rest where cs: "cs = c # rest" by (cases cs) auto
  have a: "match_idpattern (c # rest @ CHR ''$'' # t) =
     (case match_idpattern (c # rest) of None \<Rightarrow> None
      | Some (n, r) \<Rightarrow> Some (n, r @ CHR ''$'' # t))"
    using match_idpattern_append [of "c # rest" t] by simp
  show ?thesis
    unfolding cs
    by (simp add: match_after_delimiter_def a match_idpattern_append [of rest t]
          split: option.splits list.splits)
qed

lemma match_rest_suffix:
  "match_after_delimiter cs = Escaped r \<or> match_after_delimiter cs = Named n r \<or>
   match_after_delimiter cs = Braced n r \<Longrightarrow> \<exists>p. cs = p @ r"
proof (cases cs)
  case Nil
  then show "match_after_delimiter cs = Escaped r \<or> match_after_delimiter cs = Named n r \<or>
   match_after_delimiter cs = Braced n r \<Longrightarrow> \<exists>p. cs = p @ r"
    by (simp add: match_after_delimiter_def)
next
  case (Cons c rest)
  have d: "\<exists>p. xs = p @ dropWhile is_id_char xs" for xs
    by (metis takeWhile_dropWhile_id)
  assume "match_after_delimiter cs = Escaped r \<or> match_after_delimiter cs = Named n r \<or>
   match_after_delimiter cs = Braced n r"
  then consider "r = rest" | "r = dropWhile is_id_char rest"
    | c' rest' where "rest = c' # rest'" "dropWhile is_id_char rest' = CHR ''}'' # r"
    unfolding Cons
    by (auto simp: match_after_delimiter_def match_idpattern_def
          split: if_splits option.splits list.splits)
  then show "\<exists>p. cs = p @ r"
  proof cases
    case 1
    then show ?thesis using Cons by (intro exI [of _ "[c]"]) simp
  next
    case 2
    from d [of rest] obtain p where "rest = p @ r" using 2 by auto
    then show ?thesis using Cons by (intro exI [of _ "c # p"]) simp
  next
    case 3
    from d [of rest'] obtain p where "rest' = p @ CHR ''}'' # r" using 3 by auto
    then show ?thesis using Cons 3 by (intro exI [of _ "c # c' # p @ [CHR ''}'']"]) simp
  qed
qed

lemma ends_with_delimiter_suffix:
  "\<not> ends_with_delimiter (p @ r) \<Longrightarrow> \<not> ends_with_delimiter r"
  by (auto simp: ends_with_delimiter_def)

lemma pattern_sub_append:
  "\<not> ends_with_delimiter pre \<Longrightarrow>
   fst (pattern_sub m (pre @ CHR ''$'' # t)) =
     fst (pattern_sub m pre) @ fst (pattern_sub m (CHR ''$'' # t))"
proof (induction m pre rule: pattern_sub.induct)
  case (1 mapping)
  show ?case by simp
next
  case (2 mapping c cs)
  let ?t = "CHR ''$'' # t"
  have tail: "\<not> ends_with_delimiter r" if "cs = p @ r" for p r
    using 2(6) that ends_with_delimiter_suffix [of "c # p" r] by simp
  show ?case
  proof (cases "c = CHR ''$''")
    case False
    have "\<not> ends_with_delimiter cs" using tail [of "[]" cs] by simp
    with 2(1) False show ?thesis by (simp add: case_prod_beta)
  next
    case True
    have ne: "cs \<noteq> []"
      using 2(6) True by (auto simp: ends_with_delimiter_def)
    note app = match_after_delimiter_append [OF ne, of t]
    show ?thesis
    proof (cases "match_after_delimiter cs")
      case (Escaped rest)
      then obtain p where "cs = p @ rest" using match_rest_suffix [of cs rest] by blast
      then have "\<not> ends_with_delimiter rest" by (rule tail)
      with 2(2) True Escaped app show ?thesis by (simp add: case_prod_beta)
    next
      case (Named named rest)
      then obtain p where "cs = p @ rest" using match_rest_suffix [of cs rest named] by blast
      then have nd: "\<not> ends_with_delimiter rest" by (rule tail)
      obtain s m1 where c: "convert mapping named (CHR ''$'' # named) = (s, m1)"
        by (cases "convert mapping named (CHR ''$'' # named)")
      have "resolves m1 = resolves mapping"
        using convert_resolves [of mapping named "CHR ''$'' # named"] c by simp
      then have sw: "fst (pattern_sub m1 ?t) = fst (pattern_sub mapping ?t)"
        by (rule pattern_sub_cong)
      have "fst (pattern_sub m1 (rest @ ?t)) = fst (pattern_sub m1 rest) @ fst (pattern_sub m1 ?t)"
        using 2(3) True Named c nd by simp
      with sw True Named app c show ?thesis by (simp add: case_prod_beta)
    next
      case (Braced braced rest)
      then obtain p where "cs = p @ rest" using match_rest_suffix [of cs rest braced] by blast
      then have nd: "\<not> ends_with_delimiter rest" by (rule tail)
      obtain s m1 where c: "convert mapping braced (''${'' @ braced @ ''}'') = (s, m1)"
        by (cases "convert mapping braced (''${'' @ braced @ ''}'')")
      have "resolves m1 = resolves mapping"
        using convert_resolves [of mapping braced "''${'' @ braced @ ''}''"] c by simp
      then have sw: "fst (pattern_sub m1 ?t) = fst (pattern_sub mapping ?t)"
        by (rule pattern_sub_cong)
      have "fst (pattern_sub m1 (rest @ ?t)) = fst (pattern_sub m1 rest) @ fst (pattern_sub m1 ?t)"
        using 2(4) True Braced c nd by simp
      with sw True Braced app c show ?thesis by (simp add: case_prod_beta)
    next
      case Invalid
      have "\<not> ends_with_delimiter cs" using tail [of "[]" cs] by simp
      with 2(5) True Invalid app show ?thesis by (simp add: case_prod_beta)
    qed
  qed
qed

lemma pattern_sub_placeholder_rest:
  assumes "is_identifier k"
    and "ph = named_placeholder k \<and> stops_identifier post \<or> ph = braced_placeholder k"
  shows "fst (pattern_sub m (ph @ post)) =
           (case resolves m k of None \<Rightarrow> ph | Some v \<Rightarrow> v) @ fst (pattern_sub m post)"
proof -
  have same: "fst (pattern_sub (snd (convert m k w)) post) = fst (pattern_sub m post)" for w
    by (rule pattern_sub_cong) (rule convert_resolves)
  from assms(2) show ?thesis
  proof
    assume a: "ph = named_placeholder k \<and> stops_identifier post"
    then have ph: "ph = named_placeholder k" and stop: "stops_identifier post" by simp_all
    show ?thesis
      unfolding ph named_placeholder_def
      using match_named [OF assms(1) stop] same [of "CHR ''$'' # k"]
        convert_fst [of m k "CHR ''$'' # k"]
      by (simp add: case_prod_beta)
  next
    assume ph: "ph = braced_placeholder k"
    show ?thesis
      unfolding ph braced_placeholder_def
      using match_braced [OF assms(1), of post] same [of "''${'' @ k @ ''}''"]
        convert_fst [of m k "''${'' @ k @ ''}''"]
      by (simp add: case_prod_beta)
  qed
qed

lemma render_unknown:
  assumes "is_identifier k" and "k \<notin> {''name'', ''kind'', ''namespace'', ''node''}"
    and "ph = named_placeholder k \<and> stops_identifier post \<or> ph = braced_placeholder k"
    and "\<not> ends_with_delimiter pre"
  shows "render event (pre @ ph @ post) = render event pre @ ''<missing>'' @ render event post"
proof -
  obtain body where ph: "ph = CHR ''$'' # body"
    using assms(3) by (auto simp: named_placeholder_def braced_placeholder_def)
  have "fst (pattern_sub (get_templating_labels event) (pre @ CHR ''$'' # body @ post)) =
      fst (pattern_sub (get_templating_labels event) pre) @
      fst (pattern_sub (get_templating_labels event) (CHR ''$'' # body @ post))"
    by (rule pattern_sub_append [OF assms(4)])
  moreover have "fst (pattern_sub (get_templating_labels event) (ph @ post)) =
      ''<missing>'' @ fst (pattern_sub (get_templating_labels event) post)"
    using pattern_sub_placeholder_rest [OF assms(1) assms(3), of "get_templating_labels event"]
      labels_resolves_unknown [OF assms(2), of event]
    by simp
  ultimately show ?thesis
    by (simp add: render_def safe_substitute_def ph)
qed

lemma render_literal: "CHR ''$'' \<notin> set lit \<Longrightarrow> render event lit = lit"
  using pattern_sub_literal [of lit "get_templating_labels event" "[]"]
  by (simp add: render_def safe_substitute_def)

section \<open>The properties\<close>

subsection \<open>The label extractor\<close>

text \<open>
  C4, as amended. For every event whose subject has no namespace, or the empty string as
  its namespace, looking up \<^verbatim>\<open>"namespace"\<close> in the labels returns \<^verbatim>\<open>"<missing>"\<close>; for
  every subject with a namespace that is not empty it returns that namespace. The same
  holds for \<^verbatim>\<open>"node"\<close>. Both keys are stored, so the lookup leaves the labels as they
  are.
\<close>

theorem labels_namespace_node:
  "(namespace (get_subject event) = None \<or> namespace (get_subject event) = Some [] \<longrightarrow>
      getitem (get_templating_labels event) ''namespace'' =
        (Inr ''<missing>'', get_templating_labels event)) \<and>
   (namespace (get_subject event) = Some ns \<and> ns \<noteq> [] \<longrightarrow>
      getitem (get_templating_labels event) ''namespace'' = (Inr ns, get_templating_labels event)) \<and>
   (node (get_subject event) = None \<or> node (get_subject event) = Some [] \<longrightarrow>
      getitem (get_templating_labels event) ''node'' =
        (Inr ''<missing>'', get_templating_labels event)) \<and>
   (node (get_subject event) = Some nd \<and> nd \<noteq> [] \<longrightarrow>
      getitem (get_templating_labels event) ''node'' = (Inr nd, get_templating_labels event))"
  by (auto simp: getitem_def labels_items truthy_def)

theorem labels_namespace_node_witness:
  "getitem (get_templating_labels pod_event) ''namespace'' =
     (Inr ''prod'', get_templating_labels pod_event) \<and>
   getitem (get_templating_labels pod_event) ''node'' =
     (Inr ''<missing>'', get_templating_labels pod_event) \<and>
   getitem (get_templating_labels node_event) ''namespace'' =
     (Inr ''<missing>'', get_templating_labels node_event) \<and>
   getitem (get_templating_labels node_event) ''node'' =
     (Inr ''worker-3'', get_templating_labels node_event) \<and>
   getitem (get_templating_labels blank_event) ''namespace'' =
     (Inr ''<missing>'', get_templating_labels blank_event)"
  using labels_namespace_node [of pod_event "''prod''" "''x''"]
    labels_namespace_node [of node_event "''x''" "''worker-3''"]
    labels_namespace_node [of blank_event "''x''" "''x''"]
  by (simp add: pod_event_def node_event_def blank_event_def)

text \<open>
  C4 as stated fails: the namespace of the subject of \<open>blank_event\<close> is not null, it is
  the empty string, and the labels map \<^verbatim>\<open>"namespace"\<close> to \<^verbatim>\<open>"<missing>"\<close>, not to it.
\<close>

theorem labels_blank_namespace_counterexample:
  "namespace (get_subject blank_event) = Some '''' \<and>
   fst (getitem (get_templating_labels blank_event) ''namespace'') = Inr ''<missing>'' \<and>
   fst (getitem (get_templating_labels blank_event) ''namespace'') \<noteq> Inr ''''"
  by (simp add: blank_event_def getitem_def labels_items truthy_def)

subsection \<open>Rendering\<close>

text \<open>
  C9. Rendering the template \<^verbatim>\<open>$kind/$namespace/$name\<close> against the labels
  kind = Pod, namespace = prod, name = api-1 gives exactly \<^verbatim>\<open>Pod/prod/api-1\<close>, whether
  the mapping is a plain dict or has a default.
\<close>

theorem render_kind_namespace_name:
  "fst (safe_substitute ''$kind/$namespace/$name''
          \<lparr>items = [''kind'' \<mapsto> ''Pod'', ''namespace'' \<mapsto> ''prod'', ''name'' \<mapsto> ''api-1''],
           default_factory = dflt\<rparr>) = ''Pod/prod/api-1''"
  by (simp add: safe_substitute_def match_after_delimiter_def match_idpattern_def convert_def
        getitem_def is_id_start_def is_id_char_def)

theorem render_kind_namespace_name_witness:
  "fst (safe_substitute ''$kind/$namespace/$name''
          \<lparr>items = [''kind'' \<mapsto> ''Pod'', ''namespace'' \<mapsto> ''prod'', ''name'' \<mapsto> ''api-1''],
           default_factory = None\<rparr>) = ''Pod/prod/api-1'' \<and>
   fst (safe_substitute ''$kind/$namespace/$name''
          \<lparr>items = [''kind'' \<mapsto> ''Pod'', ''namespace'' \<mapsto> ''prod'', ''name'' \<mapsto> ''api-1''],
           default_factory = Some ''<missing>''\<rparr>) = ''Pod/prod/api-1''"
  using render_kind_namespace_name [of None] render_kind_namespace_name [of "Some ''<missing>''"]
  by simp

text \<open>
  C2, as amended. Let a mapping have no default for absent keys and lack the key \<open>k\<close>,
  a placeholder name such as \<^verbatim>\<open>unknownVar\<close>. Rendering a template that holds the
  placeholder of \<open>k\<close>, written \<^verbatim>\<open>$k\<close> or \<^verbatim>\<open>${k}\<close>, between literal text leaves the
  template as it is, placeholder included, and leaves the mapping as it is. In
  particular \<^verbatim>\<open>$unknownVar\<close> renders to \<^verbatim>\<open>$unknownVar\<close>.
\<close>

theorem unknown_placeholder_verbatim:
  assumes "default_factory d = None" and "\<not> contains d k" and "is_identifier k"
    and "ph = named_placeholder k \<or> ph = braced_placeholder k"
    and "CHR ''$'' \<notin> set pre" and "CHR ''$'' \<notin> set post" and "stops_identifier post"
  shows "safe_substitute (pre @ ph @ post) d = (pre @ ph @ post, d)"
proof -
  have "resolves d k = None"
    using assms(1,2) by (simp add: resolves_def contains_def)
  then have "fst (safe_substitute (pre @ ph @ post) d) = pre @ ph @ post"
    using render_placeholder [OF assms(3) assms(7) assms(4) assms(5) assms(6), of d] by simp
  moreover have "snd (safe_substitute (pre @ ph @ post) d) = d"
    using pattern_sub_plain [OF assms(1)] by (simp add: safe_substitute_def)
  ultimately show ?thesis by (simp add: prod_eq_iff)
qed

theorem unknown_placeholder_verbatim_witness:
  "safe_substitute ''$unknownVar''
     \<lparr>items = [''kind'' \<mapsto> ''Pod'', ''namespace'' \<mapsto> ''prod'', ''name'' \<mapsto> ''api-1''],
      default_factory = None\<rparr> =
   (''$unknownVar'',
     \<lparr>items = [''kind'' \<mapsto> ''Pod'', ''namespace'' \<mapsto> ''prod'', ''name'' \<mapsto> ''api-1''],
      default_factory = None\<rparr>) \<and>
   fst (safe_substitute ''Pod ${unknownVar} is in trouble''
     \<lparr>items = [''kind'' \<mapsto> ''Pod'', ''namespace'' \<mapsto> ''prod'', ''name'' \<mapsto> ''api-1''],
      default_factory = None\<rparr>) = ''Pod ${unknownVar} is in trouble''"
  using unknown_placeholder_verbatim [of
      "\<lparr>items = [''kind'' \<mapsto> ''Pod'', ''namespace'' \<mapsto> ''prod'', ''name'' \<mapsto> ''api-1''],
        default_factory = None\<rparr>" "''unknownVar''" "''$unknownVar''" "[]" "[]"]
    unknown_placeholder_verbatim [of
      "\<lparr>items = [''kind'' \<mapsto> ''Pod'', ''namespace'' \<mapsto> ''prod'', ''name'' \<mapsto> ''api-1''],
        default_factory = None\<rparr>" "''unknownVar''" "''${unknownVar}''" "''Pod ''"
      "'' is in trouble''"]
  by (simp add: contains_def is_identifier_def match_idpattern_def is_id_start_def is_id_char_def
        named_placeholder_def braced_placeholder_def stops_identifier_def)

text \<open>
  C2 as stated fails for the mapping that the two actions render against: the labels of
  \<open>pod_event\<close> lack the key \<^verbatim>\<open>unknownVar\<close>, but they are a \<^verbatim>\<open>defaultdict\<close>, so
  \<^verbatim>\<open>$unknownVar\<close> renders to \<^verbatim>\<open><missing>\<close>, and \<^verbatim>\<open>create_finding\<close> with that title
  builds a Finding titled \<^verbatim>\<open><missing>\<close>.
\<close>

theorem unknown_placeholder_labels_counterexample:
  "\<not> contains (get_templating_labels pod_event) ''unknownVar'' \<and>
   fst (safe_substitute ''$unknownVar'' (get_templating_labels pod_event)) = ''<missing>'' \<and>
   fst (safe_substitute ''$unknownVar'' (get_templating_labels pod_event)) \<noteq> ''$unknownVar'' \<and>
   create_finding pod_event (new_FindingFields ''$unknownVar'' ''Job Failure'' None None) =
     (Inr (),
      add_finding pod_event
        \<lparr>title = ''<missing>'', description = None, aggregation_key = ''Job Failure'',
         severity = HIGH, subject = get_subject pod_event, source = get_source pod_event\<rparr>)"
  by (simp add: create_finding_def new_FindingFields_def get_templating_labels_def update_def
        pod_event_def truthy_def from_severity_def severity_names_def Let_def contains_def
        safe_substitute_def match_after_delimiter_def match_idpattern_def convert_def
        getitem_def is_id_start_def is_id_char_def)

text \<open>
  C3. For every event and every placeholder name \<open>k\<close> other than name, kind, namespace
  and node, the labels resolve \<open>k\<close> to \<^verbatim>\<open><missing>\<close>, and no lookup in the labels
  raises \<^verbatim>\<open>KeyError\<close>. Take a template that holds the placeholder of \<open>k\<close>, written
  \<^verbatim>\<open>$k\<close> (then not followed by an identifier character) or \<^verbatim>\<open>${k}\<close>, after any text
  that does not end in a delimiter and before any text; both may hold further
  placeholders. It renders to what the text before renders to, then \<^verbatim>\<open><missing>\<close>, then
  what the text after renders to; text without a delimiter renders to itself. As the
  title of \<^verbatim>\<open>create_finding\<close>, whatever the description, and as its description, whatever
  the title, it is rendered so in the Finding added, when the severity is recognized. As
  the title of \<^verbatim>\<open>customise_finding\<close>, and as its description, it is rendered so in what
  is passed to \<^verbatim>\<open>override_finding_attributes\<close>, whatever the other parameter, when the
  severity is absent, empty or recognized.
\<close>

theorem unknown_key_renders_missing:
  fixes event :: ExecutionBaseEvent
  assumes "is_identifier k" and "k \<notin> {''name'', ''kind'', ''namespace'', ''node''}"
    and "ph = named_placeholder k \<and> stops_identifier post \<or> ph = braced_placeholder k"
    and "\<not> ends_with_delimiter pre"
  defines "rendered \<equiv> render event pre @ ''<missing>'' @ render event post"
  shows "fst (getitem (get_templating_labels event) k) = Inr ''<missing>'' \<and>
         fst (getitem (get_templating_labels event) k') \<noteq> Inl KeyError \<and>
         render event (pre @ ph @ post) = rendered \<and>
         (CHR ''$'' \<notin> set lit \<longrightarrow> render event lit = lit) \<and>
         (fields_title fparams = pre @ ph @ post \<and>
          from_severity (fields_severity fparams) = Inr sev \<longrightarrow>
            create_finding event fparams =
              (Inr (),
               add_finding event
                 \<lparr>title = rendered,
                  description =
                    (if truthy (fields_description fparams)
                     then Some (render event (the (fields_description fparams))) else None),
                  aggregation_key = fields_aggregation_key fparams,
                  severity = sev,
                  subject = get_subject event,
                  source = get_source event\<rparr>)) \<and>
         (fields_description fparams = Some (pre @ ph @ post) \<and>
          from_severity (fields_severity fparams) = Inr sev \<longrightarrow>
            create_finding event fparams =
              (Inr (),
               add_finding event
                 \<lparr>title = render event (fields_title fparams),
                  description = Some rendered,
                  aggregation_key = fields_aggregation_key fparams,
                  severity = sev,
                  subject = get_subject event,
                  source = get_source event\<rparr>)) \<and>
         (overrides_title oparams = Some (pre @ ph @ post) \<and>
          (\<not> truthy (overrides_severity oparams) \<and> osev = None \<or>
           overrides_severity oparams = Some s \<and> s \<noteq> [] \<and>
           FindingSeverity_getitem s = Inr v \<and> osev = Some v) \<longrightarrow>
            customise_finding event oparams =
              (Inr (),
               override_finding_attributes event (Some rendered)
                 (if truthy (overrides_description oparams)
                  then Some (render event (the (overrides_description oparams))) else None)
                 osev)) \<and>
         (overrides_description oparams = Some (pre @ ph @ post) \<and>
          (\<not> truthy (overrides_severity oparams) \<and> osev = None \<or>
           overrides_severity oparams = Some s \<and> s \<noteq> [] \<and>
           FindingSeverity_getitem s = Inr v \<and> osev = Some v) \<longrightarrow>
            customise_finding event oparams =
              (Inr (),
               override_finding_attributes event
                 (if truthy (overrides_title oparams)
                  then Some (render event (the (overrides_title oparams))) else None)
                 (Some rendered) osev))"
proof -
  have res: "resolves (get_templating_labels event) k = Some ''<missing>''"
    using assms(2) by (rule labels_resolves_unknown)
  have r: "render event (pre @ ph @ post) = rendered"
    unfolding rendered_def by (rule render_unknown [OF assms(1-4)])
  have ne: "truthy (Some (pre @ ph @ post))"
    using assms(3) by (auto simp: truthy_def named_placeholder_def braced_placeholder_def)
  have g1: "fst (getitem (get_templating_labels event) k) = Inr ''<missing>''"
    using res by (simp add: getitem_fst)
  have g2: "fst (getitem (get_templating_labels event) k') \<noteq> Inl KeyError"
    by (simp add: getitem_fst resolves_def labels_items split: option.splits)
  have lit: "CHR ''$'' \<notin> set lit \<longrightarrow> render event lit = lit"
    by (simp add: render_literal)
  have sv: "(if truthy (overrides_severity oparams)
            then map_sum id Some (FindingSeverity_getitem (the (overrides_severity oparams)))
            else Inr None) = Inr osev"
    if "\<not> truthy (overrides_severity oparams) \<and> osev = None \<or>
           overrides_severity oparams = Some s \<and> s \<noteq> [] \<and>
           FindingSeverity_getitem s = Inr v \<and> osev = Some v"
    using that by (auto simp: truthy_def)
  have c1: "fields_title fparams = pre @ ph @ post \<and>
          from_severity (fields_severity fparams) = Inr sev \<longrightarrow>
            create_finding event fparams =
              (Inr (),
               add_finding event
                 \<lparr>title = rendered,
                  description =
                    (if truthy (fields_description fparams)
                     then Some (render event (the (fields_description fparams))) else None),
                  aggregation_key = fields_aggregation_key fparams,
                  severity = sev,
                  subject = get_subject event,
                  source = get_source event\<rparr>)"
    using r by (simp add: create_finding_render split del: if_split)
  have c2: "fields_description fparams = Some (pre @ ph @ post) \<and>
          from_severity (fields_severity fparams) = Inr sev \<longrightarrow>
            create_finding event fparams =
              (Inr (),
               add_finding event
                 \<lparr>title = render event (fields_title fparams),
                  description = Some rendered,
                  aggregation_key = fields_aggregation_key fparams,
                  severity = sev,
                  subject = get_subject event,
                  source = get_source event\<rparr>)"
    using r ne by (simp add: create_finding_render)
  have o1: "overrides_title oparams = Some (pre @ ph @ post) \<and>
          (\<not> truthy (overrides_severity oparams) \<and> osev = None \<or>
           overrides_severity oparams = Some s \<and> s \<noteq> [] \<and>
           FindingSeverity_getitem s = Inr v \<and> osev = Some v) \<longrightarrow>
            customise_finding event oparams =
              (Inr (),
               override_finding_attributes event (Some rendered)
                 (if truthy (overrides_description oparams)
                  then Some (render event (the (overrides_description oparams))) else None)
                 osev)"
  proof (intro impI, elim conjE)
    assume t: "overrides_title oparams = Some (pre @ ph @ post)"
      and "\<not> truthy (overrides_severity oparams) \<and> osev = None \<or>
           overrides_severity oparams = Some s \<and> s \<noteq> [] \<and>
           FindingSeverity_getitem s = Inr v \<and> osev = Some v"
    from sv [OF this(2)] t r ne show "customise_finding event oparams =
              (Inr (),
               override_finding_attributes event (Some rendered)
                 (if truthy (overrides_description oparams)
                  then Some (render event (the (overrides_description oparams))) else None)
                 osev)"
      unfolding customise_finding_render by (simp split del: if_split)
  qed
  have o2: "overrides_description oparams = Some (pre @ ph @ post) \<and>
          (\<not> truthy (overrides_severity oparams) \<and> osev = None \<or>
           overrides_severity oparams = Some s \<and> s \<noteq> [] \<and>
           FindingSeverity_getitem s = Inr v \<and> osev = Some v) \<longrightarrow>
            customise_finding event oparams =
              (Inr (),
               override_finding_attributes event
                 (if truthy (overrides_title oparams)
                  then Some (render event (the (overrides_title oparams))) else None)
                 (Some rendered) osev)"
  proof (intro impI, elim conjE)
    assume t: "overrides_description oparams = Some (pre @ ph @ post)"
      and "\<not> truthy (overrides_severity oparams) \<and> osev = None \<or>
           overrides_severity oparams = Some s \<and> s \<noteq> [] \<and>
           FindingSeverity_getitem s = Inr v \<and> osev = Some v"
    from sv [OF this(2)] t r ne show "customise_finding event oparams =
              (Inr (),
               override_finding_attributes event
                 (if truthy (overrides_title oparams)
                  then Some (render event (the (overrides_title oparams))) else None)
                 (Some rendered) osev)"
      unfolding customise_finding_render by (simp split del: if_split)
  qed
  from g1 g2 r lit c1 c2 o1 o2 show ?thesis by blast
qed


theorem unknown_key_renders_missing_witness:
  "create_finding pod_event
     (new_FindingFields ''Pod $owner is in trouble'' ''Crashing Pod''
        (Some (Some ''Job ${owner}s of $name'')) None) =
     (Inr (),
      add_finding pod_event
        \<lparr>title = ''Pod <missing> is in trouble'',
         description = Some ''Job <missing>s of api-1'',
         aggregation_key = ''Crashing Pod'', severity = HIGH,
         subject = get_subject pod_event, source = get_source pod_event\<rparr>) \<and>
   customise_finding pod_event
     \<lparr>overrides_title = Some ''$name: ${owner}s'', overrides_description = None,
      overrides_severity = Some ''LOW''\<rparr> =
     (Inr (),
      override_finding_attributes pod_event (Some ''api-1: <missing>s'') None (Some LOW)) \<and>
   fst (getitem (get_templating_labels pod_event) ''owner'') = Inr ''<missing>''"
proof -
  let ?P = "new_FindingFields ''Pod $owner is in trouble'' ''Crashing Pod''
        (Some (Some ''Job ${owner}s of $name'')) None"
  let ?O = "\<lparr>overrides_title = Some ''$name: ${owner}s'', overrides_description = None,
      overrides_severity = Some ''LOW''\<rparr>"
  note eval = render_def safe_substitute_def match_after_delimiter_def match_idpattern_def
    convert_def getitem_def is_id_start_def is_id_char_def get_templating_labels_def update_def
    pod_event_def truthy_def Let_def
  have id: "is_identifier ''owner''"
    by (simp add: is_identifier_def match_idpattern_def is_id_start_def is_id_char_def)
  have key: "''owner'' \<notin> {''name'', ''kind'', ''namespace'', ''node''}"
    by simp
  have named: "''$owner'' = named_placeholder ''owner'' \<and> stops_identifier '' is in trouble'' \<or>
      ''$owner'' = braced_placeholder ''owner''"
    by (simp add: named_placeholder_def stops_identifier_def is_id_start_def is_id_char_def)
  have braced: "''${owner}'' = named_placeholder ''owner'' \<and> stops_identifier post \<or>
      ''${owner}'' = braced_placeholder ''owner''" for post
    by (simp add: braced_placeholder_def)
  have pre1: "\<not> ends_with_delimiter ''Pod ''" and pre2: "\<not> ends_with_delimiter ''Job ''"
    and pre3: "\<not> ends_with_delimiter ''$name: ''"
    by (simp_all add: ends_with_delimiter_def)
  have sev: "from_severity (fields_severity ?P) = Inr HIGH"
    by (simp add: new_FindingFields_def from_severity_def severity_names_def)
  have low: "FindingSeverity_getitem ''LOW'' = Inr LOW"
    by (simp add: FindingSeverity_getitem_def severity_names_def)
  have r1: "render pod_event ''Pod '' = ''Pod ''"
    and r2: "render pod_event '' is in trouble'' = '' is in trouble''"
    and r3: "render pod_event ''Job '' = ''Job ''"
    and r4: "render pod_event ''s of $name'' = ''s of api-1''"
    and r5: "render pod_event ''$name: '' = ''api-1: ''"
    and r6: "render pod_event ''s'' = ''s''"
    and r7: "render pod_event ''Job ${owner}s of $name'' = ''Job <missing>s of api-1''"
    by (simp_all add: eval)
  from unknown_key_renders_missing [OF id key named pre1, where event = pod_event
      and fparams = ?P and sev = HIGH] sev
  have a: "create_finding pod_event ?P =
     (Inr (),
      add_finding pod_event
        \<lparr>title = ''Pod <missing> is in trouble'',
         description = Some ''Job <missing>s of api-1'',
         aggregation_key = ''Crashing Pod'', severity = HIGH,
         subject = get_subject pod_event, source = get_source pod_event\<rparr>)"
    and g: "fst (getitem (get_templating_labels pod_event) ''owner'') = Inr ''<missing>''"
    by (simp_all add: new_FindingFields_def r1 r2 r7 truthy_def)
  from unknown_key_renders_missing [OF id key braced pre2, where post = "''s of $name''"
      and event = pod_event and fparams = ?P and sev = HIGH] sev
  have d: "description (last (findings (snd (create_finding pod_event ?P)))) =
      Some ''Job <missing>s of api-1''"
    by (simp add: new_FindingFields_def r3 r4 add_finding_def)
  from unknown_key_renders_missing [OF id key braced pre3, where post = "''s''"
      and event = pod_event and oparams = ?O and osev = "Some LOW" and s = "''LOW''" and v = LOW]
    low
  have b: "customise_finding pod_event ?O =
     (Inr (),
      override_finding_attributes pod_event (Some ''api-1: <missing>s'') None (Some LOW))"
    by (simp add: r5 r6 truthy_def)
  from a b g show ?thesis by simp
qed

subsection \<open>An unrecognized severity\<close>

text \<open>
  C1, as amended. Let the severity string not be one of DEBUG, INFO, LOW, MEDIUM, HIGH.
  If it is the severity of the parameters of \<^verbatim>\<open>create_finding\<close>, the call raises
  \<open>InvalidSeverity\<close> and leaves the event as it was: no Finding is added. If it is the
  severity of the parameters of \<^verbatim>\<open>customise_finding\<close> and is not the empty string, the
  call raises \<open>InvalidSeverity\<close> and leaves the event as it was: the error branch returns
  before \<^verbatim>\<open>override_finding_attributes\<close> is reached.
\<close>

theorem invalid_severity_raises:
  assumes "s \<notin> {''DEBUG'', ''INFO'', ''LOW'', ''MEDIUM'', ''HIGH''}"
  shows "(fields_severity fparams = Some s \<longrightarrow>
            create_finding event fparams = (Inl InvalidSeverity, event)) \<and>
         (overrides_severity oparams = Some s \<and> s \<noteq> [] \<longrightarrow>
            customise_finding event oparams = (Inl InvalidSeverity, event))"
  using parse_unknown [OF assms]
  by (simp add: create_finding_render customise_finding_render from_severity_def
        FindingSeverity_getitem_def truthy_def)

theorem invalid_severity_raises_witness:
  "create_finding pod_event
     (new_FindingFields ''Job $name failed'' ''Job Failure'' None (Some (Some ''CRITICAL'')))
     = (Inl InvalidSeverity, pod_event) \<and>
   create_finding pod_event
     (new_FindingFields ''Job $name failed'' ''Job Failure'' None (Some (Some '''')))
     = (Inl InvalidSeverity, pod_event) \<and>
   customise_finding pod_event
     \<lparr>overrides_title = Some ''New title'', overrides_description = None,
      overrides_severity = Some ''CRITICAL''\<rparr> = (Inl InvalidSeverity, pod_event)"
  using invalid_severity_raises [of "''CRITICAL''"
      "new_FindingFields ''Job $name failed'' ''Job Failure'' None (Some (Some ''CRITICAL''))"
      pod_event
      "\<lparr>overrides_title = Some ''New title'', overrides_description = None,
        overrides_severity = Some ''CRITICAL''\<rparr>"]
    invalid_severity_raises [of "''''"
      "new_FindingFields ''Job $name failed'' ''Job Failure'' None (Some (Some ''''))"
      pod_event]
  by (simp add: new_FindingFields_def)

text \<open>
  C1 as stated fails for \<^verbatim>\<open>customise_finding\<close>: a severity that is set to the empty
  string is not one of the five names, yet the call raises nothing and goes on to
  \<^verbatim>\<open>override_finding_attributes\<close>.
\<close>

theorem customise_finding_empty_severity_counterexample:
  "overrides_severity
     \<lparr>overrides_title = None, overrides_description = None, overrides_severity = Some ''''\<rparr>
     = Some '''' \<and>
   '''' \<notin> {''DEBUG'', ''INFO'', ''LOW'', ''MEDIUM'', ''HIGH''} \<and>
   customise_finding pod_event
     \<lparr>overrides_title = None, overrides_description = None, overrides_severity = Some ''''\<rparr>
     = (Inr (), override_finding_attributes pod_event None None None) \<and>
   fst (customise_finding pod_event
     \<lparr>overrides_title = None, overrides_description = None, overrides_severity = Some ''''\<rparr>)
     \<noteq> Inl InvalidSeverity"
  by (simp add: customise_finding_render truthy_def)

subsection \<open>create_finding\<close>

text \<open>
  C5. For every event, \<^verbatim>\<open>create_finding\<close> with the severity \<^verbatim>\<open>"DEBUG"\<close> hands
  \<^verbatim>\<open>add_finding\<close> a Finding of severity DEBUG. With the severity left out when the
  parameters are built, the field has the default \<^verbatim>\<open>"HIGH"\<close> of the class and the
  Finding has severity HIGH.
\<close>

theorem create_finding_severity:
  "(fields_severity params = Some ''DEBUG'' \<longrightarrow>
      (\<exists>f. create_finding event params = (Inr (), add_finding event f) \<and> severity f = DEBUG)) \<and>
   fields_severity (new_FindingFields t k d None) = Some ''HIGH'' \<and>
   (\<exists>f. create_finding event (new_FindingFields t k d None) = (Inr (), add_finding event f) \<and>
        severity f = HIGH)"
proof -
  have "from_severity (fields_severity params) = Inr DEBUG" if "fields_severity params = Some ''DEBUG''"
    using that by (simp add: from_severity_def severity_names_def)
  moreover have "from_severity (fields_severity (new_FindingFields t k d None)) = Inr HIGH"
    by (simp add: from_severity_def severity_names_def new_FindingFields_def)
  ultimately show ?thesis
    using create_finding_ok [of params DEBUG event]
      create_finding_ok [of "new_FindingFields t k d None" HIGH event]
    by (auto simp: new_FindingFields_def)
qed

theorem create_finding_severity_witness:
  "(\<exists>f. create_finding pod_event
           (new_FindingFields ''Job $name failed'' ''Job Failure'' None (Some (Some ''DEBUG'')))
         = (Inr (), add_finding pod_event f) \<and> severity f = DEBUG) \<and>
   (\<exists>f. create_finding pod_event (new_FindingFields ''Job $name failed'' ''Job Failure'' None None)
         = (Inr (), add_finding pod_event f) \<and> severity f = HIGH)"
  using create_finding_severity [of
      "new_FindingFields ''Job $name failed'' ''Job Failure'' None (Some (Some ''DEBUG''))"
      pod_event "''Job $name failed''" "''Job Failure''" None]
  by (simp add: new_FindingFields_def)

text \<open>
  C8. Whenever the severity is recognized, \<^verbatim>\<open>create_finding\<close> returns normally and the
  Finding it hands to \<^verbatim>\<open>add_finding\<close> has the aggregation key of the parameters,
  character for character: the key is never rendered. On \<open>pod_event\<close> the title
  \<^verbatim>\<open>$name\<close> becomes \<^verbatim>\<open>api-1\<close> while the aggregation key \<^verbatim>\<open>$name\<close> stays \<^verbatim>\<open>$name\<close>.
\<close>

theorem aggregation_key_literal:
  assumes "from_severity (fields_severity params) = Inr sev"
  shows "\<exists>f. create_finding event params = (Inr (), add_finding event f) \<and>
             aggregation_key f = fields_aggregation_key params"
  using create_finding_ok [OF assms, of event] by blast

theorem aggregation_key_literal_witness:
  "create_finding pod_event (new_FindingFields ''$name'' ''$name'' None None) =
     (Inr (),
      add_finding pod_event
        \<lparr>title = ''api-1'', description = None, aggregation_key = ''$name'', severity = HIGH,
         subject = get_subject pod_event, source = get_source pod_event\<rparr>) \<and>
   (\<exists>f. create_finding pod_event (new_FindingFields ''$name'' ''$name'' None None) =
          (Inr (), add_finding pod_event f) \<and> aggregation_key f = ''$name'')"
proof -
  have run: "create_finding pod_event (new_FindingFields ''$name'' ''$name'' None None) =
     (Inr (),
      add_finding pod_event
        \<lparr>title = ''api-1'', description = None, aggregation_key = ''$name'', severity = HIGH,
         subject = get_subject pod_event, source = get_source pod_event\<rparr>)"
    by (simp add: create_finding_def new_FindingFields_def get_templating_labels_def update_def
          pod_event_def truthy_def from_severity_def severity_names_def Let_def
          safe_substitute_def match_after_delimiter_def match_idpattern_def convert_def
          getitem_def is_id_start_def is_id_char_def)
  have sev: "from_severity (fields_severity (new_FindingFields ''$name'' ''$name'' None None)) =
      Inr HIGH"
    by (simp add: new_FindingFields_def from_severity_def severity_names_def)
  from aggregation_key_literal [OF sev, of pod_event]
  have "\<exists>f. create_finding pod_event (new_FindingFields ''$name'' ''$name'' None None) =
          (Inr (), add_finding pod_event f) \<and> aggregation_key f = ''$name''"
    by (simp add: new_FindingFields_def)
  with run show ?thesis by blast
qed

text \<open>
  C6. Two calls of \<^verbatim>\<open>create_finding\<close> in a row on the same event, each with a
  recognized severity, both return normally. The first leaves the event with the Findings
  it had, in their order, and one more after them; the second leaves it with those and
  one more again. Each of the two new Findings has the aggregation key of its call, and
  if the keys differ the two Findings differ.
\<close>

theorem create_finding_appends:
  assumes "from_severity (fields_severity p1) = Inr sev1"
    and "from_severity (fields_severity p2) = Inr sev2"
  shows "\<exists>f1 f2 event1 event2.
           create_finding event p1 = (Inr (), event1) \<and>
           findings event1 = findings event @ [f1] \<and>
           create_finding event1 p2 = (Inr (), event2) \<and>
           findings event2 = findings event @ [f1, f2] \<and>
           aggregation_key f1 = fields_aggregation_key p1 \<and>
           aggregation_key f2 = fields_aggregation_key p2 \<and>
           (fields_aggregation_key p1 \<noteq> fields_aggregation_key p2 \<longrightarrow> f1 \<noteq> f2)"
proof -
  from create_finding_ok [OF assms(1), of event] obtain f1 where
    f1: "create_finding event p1 = (Inr (), add_finding event f1)"
      "aggregation_key f1 = fields_aggregation_key p1"
    by blast
  from create_finding_ok [OF assms(2), of "add_finding event f1"] obtain f2 where
    f2: "create_finding (add_finding event f1) p2 =
           (Inr (), add_finding (add_finding event f1) f2)"
      "aggregation_key f2 = fields_aggregation_key p2"
    by blast
  have a: "findings (add_finding event f1) = findings event @ [f1]"
    and b: "findings (add_finding (add_finding event f1) f2) = findings event @ [f1, f2]"
    by (simp_all add: add_finding_def)
  have c: "fields_aggregation_key p1 \<noteq> fields_aggregation_key p2 \<longrightarrow> f1 \<noteq> f2"
    using f1(2) f2(2) by auto
  from f1 f2 a b c show ?thesis by blast
qed

theorem create_finding_appends_witness:
  "create_finding pod_event (new_FindingFields ''Job $name failed'' ''Job Failure'' None None) =
     (Inr (),
      pod_event\<lparr>findings :=
        [\<lparr>title = ''Job api-1 failed'', description = None, aggregation_key = ''Job Failure'',
          severity = HIGH, subject = get_subject pod_event, source = get_source pod_event\<rparr>]\<rparr>) \<and>
   create_finding
     (pod_event\<lparr>findings :=
        [\<lparr>title = ''Job api-1 failed'', description = None, aggregation_key = ''Job Failure'',
          severity = HIGH, subject = get_subject pod_event, source = get_source pod_event\<rparr>]\<rparr>)
     (new_FindingFields ''Pod $name was killed'' ''OOMKill'' None (Some (Some ''LOW''))) =
     (Inr (),
      pod_event\<lparr>findings :=
        [\<lparr>title = ''Job api-1 failed'', description = None, aggregation_key = ''Job Failure'',
          severity = HIGH, subject = get_subject pod_event, source = get_source pod_event\<rparr>,
         \<lparr>title = ''Pod api-1 was killed'', description = None, aggregation_key = ''OOMKill'',
          severity = LOW, subject = get_subject pod_event, source = get_source pod_event\<rparr>]\<rparr>) \<and>
   (\<exists>f1 f2 event1 event2.
      create_finding pod_event
        (new_FindingFields ''Job $name failed'' ''Job Failure'' None None) = (Inr (), event1) \<and>
      findings event1 = [f1] \<and>
      create_finding event1
        (new_FindingFields ''Pod $name was killed'' ''OOMKill'' None (Some (Some ''LOW''))) =
        (Inr (), event2) \<and>
      findings event2 = [f1, f2] \<and>
      aggregation_key f1 = ''Job Failure'' \<and> aggregation_key f2 = ''OOMKill'' \<and> f1 \<noteq> f2)"
proof -
  let ?f1 = "\<lparr>title = ''Job api-1 failed'', description = None, aggregation_key = ''Job Failure'',
          severity = HIGH, subject = get_subject pod_event, source = get_source pod_event\<rparr>"
  let ?f2 = "\<lparr>title = ''Pod api-1 was killed'', description = None, aggregation_key = ''OOMKill'',
          severity = LOW, subject = get_subject pod_event, source = get_source pod_event\<rparr>"
  let ?p1 = "new_FindingFields ''Job $name failed'' ''Job Failure'' None None"
  let ?p2 = "new_FindingFields ''Pod $name was killed'' ''OOMKill'' None (Some (Some ''LOW''))"
  have run1: "create_finding pod_event ?p1 = (Inr (), pod_event\<lparr>findings := [?f1]\<rparr>)"
    by (simp add: create_finding_def new_FindingFields_def get_templating_labels_def update_def
          pod_event_def truthy_def from_severity_def severity_names_def Let_def add_finding_def
          safe_substitute_def match_after_delimiter_def match_idpattern_def convert_def
          getitem_def is_id_start_def is_id_char_def)
  have run2: "create_finding (pod_event\<lparr>findings := [?f1]\<rparr>) ?p2 =
       (Inr (), pod_event\<lparr>findings := [?f1, ?f2]\<rparr>)"
    by (simp add: create_finding_def new_FindingFields_def get_templating_labels_def update_def
          pod_event_def truthy_def from_severity_def severity_names_def Let_def add_finding_def
          safe_substitute_def match_after_delimiter_def match_idpattern_def convert_def
          getitem_def is_id_start_def is_id_char_def)
  have s1: "from_severity (fields_severity ?p1) = Inr HIGH"
    and s2: "from_severity (fields_severity ?p2) = Inr LOW"
    by (simp_all add: new_FindingFields_def from_severity_def severity_names_def)
  from create_finding_appends [OF s1 s2, of pod_event]
  have "\<exists>f1 f2 event1 event2.
      create_finding pod_event ?p1 = (Inr (), event1) \<and>
      findings event1 = [f1] \<and>
      create_finding event1 ?p2 = (Inr (), event2) \<and>
      findings event2 = [f1, f2] \<and>
      aggregation_key f1 = ''Job Failure'' \<and> aggregation_key f2 = ''OOMKill'' \<and> f1 \<noteq> f2"
    by (simp add: new_FindingFields_def pod_event_def)
  with run1 run2 show ?thesis by blast
qed

subsection \<open>customise_finding\<close>

text \<open>
  C10. \<^verbatim>\<open>customise_finding\<close> treats a parameter that is the empty string as absent: for
  each of the three parameters the call does what it does with that parameter
  \<^verbatim>\<open>None\<close>. An empty severity is not parsed, so the call returns normally; with all
  three empty, \<^verbatim>\<open>override_finding_attributes\<close> is given no title, no description and
  no severity.
\<close>

theorem customise_finding_empty_string_absent:
  "customise_finding event (params\<lparr>overrides_title := Some ''''\<rparr>) =
     customise_finding event (params\<lparr>overrides_title := None\<rparr>) \<and>
   customise_finding event (params\<lparr>overrides_description := Some ''''\<rparr>) =
     customise_finding event (params\<lparr>overrides_description := None\<rparr>) \<and>
   customise_finding event (params\<lparr>overrides_severity := Some ''''\<rparr>) =
     customise_finding event (params\<lparr>overrides_severity := None\<rparr>) \<and>
   fst (customise_finding event (params\<lparr>overrides_severity := Some ''''\<rparr>)) = Inr () \<and>
   customise_finding event
     \<lparr>overrides_title = Some '''', overrides_description = Some '''',
      overrides_severity = Some ''''\<rparr> =
     (Inr (), override_finding_attributes event None None None)"
  by (simp add: customise_finding_def truthy_def Let_def case_prod_beta split: sum.splits)

theorem customise_finding_empty_string_absent_witness:
  "customise_finding
     (pod_event\<lparr>findings :=
        [\<lparr>title = ''Old Title'', description = Some ''Old description'',
          aggregation_key = ''Job Failure'', severity = HIGH,
          subject = get_subject pod_event, source = get_source pod_event\<rparr>]\<rparr>)
     \<lparr>overrides_title = Some '''', overrides_description = Some '''',
      overrides_severity = Some ''''\<rparr> =
   (Inr (),
    pod_event\<lparr>findings :=
        [\<lparr>title = ''Old Title'', description = Some ''Old description'',
          aggregation_key = ''Job Failure'', severity = HIGH,
          subject = get_subject pod_event, source = get_source pod_event\<rparr>]\<rparr>)"
  using customise_finding_empty_string_absent [of
      "pod_event\<lparr>findings :=
        [\<lparr>title = ''Old Title'', description = Some ''Old description'',
          aggregation_key = ''Job Failure'', severity = HIGH,
          subject = get_subject pod_event, source = get_source pod_event\<rparr>]\<rparr>"
      "\<lparr>overrides_title = None, overrides_description = None, overrides_severity = None\<rparr>"]
  by (simp add: override_finding_attributes_def override_attributes_def pod_event_def)

text \<open>
  C7. On an event that holds a Finding, \<^verbatim>\<open>customise_finding\<close> leaves the number of
  Findings as it was, and for every Finding of the event: the title is kept if the title
  parameter is null, the description is kept if the description parameter is null, the
  severity is kept if the severity parameter is null, and the aggregation key, the
  subject and the source are kept in any case. A severity parameter that names a severity
  becomes the severity of every Finding. With only the severity \<^verbatim>\<open>DEBUG\<close> set, a Finding
  titled \<^verbatim>\<open>Old Title\<close> of severity HIGH keeps its title and gets the severity DEBUG.
\<close>

theorem customise_finding_frame:
  assumes "findings event \<noteq> []" and "customise_finding event params = (r, event')"
  shows "length (findings event') = length (findings event) \<and>
         (\<forall>i<length (findings event).
            (overrides_title params = None \<longrightarrow>
               title (findings event' ! i) = title (findings event ! i)) \<and>
            (overrides_description params = None \<longrightarrow>
               description (findings event' ! i) = description (findings event ! i)) \<and>
            (overrides_severity params = None \<longrightarrow>
               severity (findings event' ! i) = severity (findings event ! i)) \<and>
            (overrides_severity params = Some s \<and> s \<noteq> [] \<and>
             FindingSeverity_getitem s = Inr sev \<longrightarrow>
               r = Inr () \<and> severity (findings event' ! i) = sev) \<and>
            aggregation_key (findings event' ! i) = aggregation_key (findings event ! i) \<and>
            subject (findings event' ! i) = subject (findings event ! i) \<and>
            source (findings event' ! i) = source (findings event ! i))"
proof (cases "if truthy (overrides_severity params)
            then map_sum id Some (FindingSeverity_getitem (the (overrides_severity params)))
            else Inr None")
  case (Inl e)
  with assms(2) have same: "event' = event" "r = Inl e"
    by (simp_all add: customise_finding_render)
  from Inl have "\<not> (overrides_severity params = Some s \<and> s \<noteq> [] \<and>
             FindingSeverity_getitem s = Inr sev)"
    by (auto simp: truthy_def split: if_splits option.splits)
  moreover from Inl have "overrides_severity params \<noteq> None"
    by (auto simp: truthy_def split: if_splits option.splits)
  ultimately show ?thesis using same by simp
next
  case (Inr sv)
  define t where "t = (if truthy (overrides_title params)
              then Some (render event (the (overrides_title params))) else None)"
  define d where "d = (if truthy (overrides_description params)
              then Some (render event (the (overrides_description params))) else None)"
  from Inr assms(2) have ev: "event' = override_finding_attributes event t d sv" and r: "r = Inr ()"
    by (simp_all add: customise_finding_render t_def d_def)
  have tn: "overrides_title params = None \<Longrightarrow> t = None"
    and dn: "overrides_description params = None \<Longrightarrow> d = None"
    by (simp_all add: t_def d_def truthy_def)
  have sn: "overrides_severity params = None \<Longrightarrow> sv = None"
    using Inr by (simp add: truthy_def)
  have ss: "sv = Some sev"
    if "overrides_severity params = Some s" "s \<noteq> []" "FindingSeverity_getitem s = Inr sev"
    using Inr that by (simp add: truthy_def)
  show ?thesis
    unfolding ev override_finding_attributes_def
    using tn dn sn ss r by (auto simp: override_attributes_frame)
qed

theorem customise_finding_frame_witness:
  "customise_finding
     (pod_event\<lparr>findings :=
        [\<lparr>title = ''Old Title'', description = Some ''Old description'',
          aggregation_key = ''Job Failure'', severity = HIGH,
          subject = get_subject pod_event, source = get_source pod_event\<rparr>]\<rparr>)
     \<lparr>overrides_title = None, overrides_description = None, overrides_severity = Some ''DEBUG''\<rparr> =
   (Inr (),
    pod_event\<lparr>findings :=
        [\<lparr>title = ''Old Title'', description = Some ''Old description'',
          aggregation_key = ''Job Failure'', severity = DEBUG,
          subject = get_subject pod_event, source = get_source pod_event\<rparr>]\<rparr>) \<and>
   title (findings
     (pod_event\<lparr>findings :=
        [\<lparr>title = ''Old Title'', description = Some ''Old description'',
          aggregation_key = ''Job Failure'', severity = DEBUG,
          subject = get_subject pod_event, source = get_source pod_event\<rparr>]\<rparr>) ! 0) = ''Old Title''"
proof -
  let ?old = "\<lparr>title = ''Old Title'', description = Some ''Old description'',
          aggregation_key = ''Job Failure'', severity = HIGH,
          subject = get_subject pod_event, source = get_source pod_event\<rparr>"
  let ?new = "\<lparr>title = ''Old Title'', description = Some ''Old description'',
          aggregation_key = ''Job Failure'', severity = DEBUG,
          subject = get_subject pod_event, source = get_source pod_event\<rparr>"
  let ?ps = "\<lparr>overrides_title = None, overrides_description = None,
          overrides_severity = Some ''DEBUG''\<rparr>"
  have run: "customise_finding (pod_event\<lparr>findings := [?old]\<rparr>) ?ps =
      (Inr (), pod_event\<lparr>findings := [?new]\<rparr>)"
    by (simp add: customise_finding_def truthy_def FindingSeverity_getitem_def severity_names_def
          Let_def override_finding_attributes_def override_attributes_def pod_event_def)
  have ne: "findings (pod_event\<lparr>findings := [?old]\<rparr>) \<noteq> []"
    by simp
  from customise_finding_frame [OF ne run, where s = "''DEBUG''" and sev = DEBUG]
  have "title (findings (pod_event\<lparr>findings := [?new]\<rparr>) ! 0) = ''Old Title''"
    by simp
  with run show ?thesis by simp
qed

end
